theory Spec2Isabelle
  imports Complex_Main "HOL-Library.Word" "HOL-Library.AList" "HOL-Library.Sublist"
begin

section \<open>Thread of Ariadne: embedding cache and similarity ranking\<close>

text \<open>
  A shallow embedding of the core of \<^verbatim>\<open>src/main.ts\<close>: the local hash embedder
  (\<^verbatim>\<open>getLocalEmbedding\<close>, \<^verbatim>\<open>simpleHash\<close>, \<^verbatim>\<open>addCrossLanguageFeatures\<close>), the
  remote client (\<^verbatim>\<open>getGeminiEmbedding\<close>), the backend choice with fallback
  (\<^verbatim>\<open>getEmbedding\<close>), the cache (\<^verbatim>\<open>getNoteEmbedding\<close>, \<^verbatim>\<open>cleanEmbeddingCache\<close>),
  the metric (\<^verbatim>\<open>cosineSimilarity\<close>) and the orchestrator (\<^verbatim>\<open>findSimilarNotes\<close>).

  Conventions of the model.
  \<^item> A JavaScript string is the list of its UTF-16 code units (\<open>16 word list\<close>):
    \<^verbatim>\<open>charCodeAt\<close>, \<^verbatim>\<open>length\<close> and the regular expressions of the source (none has the
    \<^verbatim>\<open>u\<close> flag) all work on code units.
  \<^item> A JavaScript number that holds a count, a hash, a time stamp or an index is an
    \<open>int\<close>; the 32-bit conversions of the bit operators are written out. Vector
    components and similarity scores are \<open>real\<close>: rounding, infinities and NaN of
    IEEE doubles are outside the model.
  \<^item> A thrown exception or rejected promise is the \<open>Inl\<close> branch of a sum.
  \<^item> The plugin object (\<^verbatim>\<open>this\<close>) is a record passed in and returned; the host
    application (vault, network, clock) is a record of oracles. Vault reads, network
    requests and embedding computations are recorded in a trace so that claims
    about what was or was not performed can be stated. Presentation effects
    (\<^verbatim>\<open>Notice\<close>, status bar, console, sidebar rendering) and the persistence of
    the cache are not modelled.
\<close>

subsection \<open>Strings\<close>

type_synonym jsstring = "16 word list"

definition js :: "string \<Rightarrow> jsstring" where
  \<comment> \<open>an ASCII literal of the source as code units\<close>
  "js s = map (\<lambda>c. of_nat (of_char c)) s"

definition lowerUnit :: "16 word \<Rightarrow> jsstring" where
  \<comment> \<open>\<^verbatim>\<open>toLowerCase\<close>, as far as \<^verbatim>\<open>/[a-z0-9]+/g\<close> can see it: \<^verbatim>\<open>A-Z\<close>, the Kelvin sign
     U+212A (to \<^verbatim>\<open>k\<close>) and U+0130 (to \<^verbatim>\<open>i\<close> followed by U+0307) are the only code units
     whose lower case contains an ASCII letter; every other code unit is kept, its
     lower case being outside \<^verbatim>\<open>[a-z0-9]\<close> like itself.\<close>
  "lowerUnit c =
     (if 0x41 \<le> c \<and> c \<le> 0x5A then [c + 0x20]
      else if c = 0x212A then [0x6B]
      else if c = 0x130 then [0x69, 0x307]
      else [c])"

definition toLowerCase :: "jsstring \<Rightarrow> jsstring" where
  "toLowerCase text = concat (map lowerUnit text)"

definition isAlnum :: "16 word \<Rightarrow> bool" where
  \<comment> \<open>the class \<^verbatim>\<open>[a-z0-9]\<close>\<close>
  "isAlnum c = ((0x61 \<le> c \<and> c \<le> 0x7A) \<or> (0x30 \<le> c \<and> c \<le> 0x39))"

definition isChineseUnit :: "16 word \<Rightarrow> bool" where
  \<comment> \<open>the class of U+4E00 to U+9FFF (CJK Unified Ideographs)\<close>
  "isChineseUnit c = (0x4E00 \<le> c \<and> c \<le> 0x9FFF)"

definition isCJKUnit :: "16 word \<Rightarrow> bool" where
  \<comment> \<open>the class of U+4E00-9FFF, U+3040-309F, U+30A0-30FF and U+AC00-D7AF\<close>
  "isCJKUnit c =
     ((0x4E00 \<le> c \<and> c \<le> 0x9FFF) \<or> (0x3040 \<le> c \<and> c \<le> 0x309F) \<or>
      (0x30A0 \<le> c \<and> c \<le> 0x30FF) \<or> (0xAC00 \<le> c \<and> c \<le> 0xD7AF))"

fun matchAlnumRuns :: "jsstring \<Rightarrow> jsstring \<Rightarrow> jsstring list" where
  \<comment> \<open>\<^verbatim>\<open>match(/[a-z0-9]+/g) || []\<close>: the maximal runs, left to right; the second
     argument is the run being read\<close>
  "matchAlnumRuns [] run = (if run = [] then [] else [run])"
| "matchAlnumRuns (c # cs) run =
     (if isAlnum c then matchAlnumRuns cs (run @ [c])
      else (if run = [] then [] else [run]) @ matchAlnumRuns cs [])"

definition matchCJKChars :: "jsstring \<Rightarrow> jsstring list" where
  \<comment> \<open>\<^verbatim>\<open>match(/[...]/g) || []\<close>: every code unit of the class, as a one-unit string\<close>
  "matchCJKChars text = map (\<lambda>c. [c]) (filter isCJKUnit text)"

definition isWhiteSpace :: "16 word \<Rightarrow> bool" where
  \<comment> \<open>what \<^verbatim>\<open>String.prototype.trim\<close> strips: white space and line terminators\<close>
  "isWhiteSpace c =
     (c \<in> set [0x9, 0xA, 0xB, 0xC, 0xD, 0x20, 0xA0, 0x1680, 0x2028, 0x2029, 0x202F,
                0x205F, 0x3000, 0xFEFF] \<or> (0x2000 \<le> c \<and> c \<le> 0x200A))"

definition trim :: "jsstring \<Rightarrow> jsstring" where
  "trim s = rev (dropWhile isWhiteSpace (rev (dropWhile isWhiteSpace s)))"

subsection \<open>Errors\<close>

datatype error =
    MissingApiKey            \<comment> \<open>\<^verbatim>\<open>throw new Error('Missing API key')\<close>: the spec's ConfigError\<close>
  | FetchRejected            \<comment> \<open>\<^verbatim>\<open>fetch\<close> rejects: the spec's TransportError\<close>
  | ApiError int             \<comment> \<open>\<^verbatim>\<open>!response.ok\<close>, with the status: the spec's ServiceError\<close>
  | InvalidResponseFormat    \<comment> \<open>body not JSON or without \<^verbatim>\<open>embedding.values\<close>: FormatError\<close>
  | ReadFailed               \<comment> \<open>\<^verbatim>\<open>vault.read\<close> rejects: the spec's NotFound\<close>
  | NotIterable              \<comment> \<open>TypeError of \<^verbatim>\<open>for ... of\<close> over a value that is no iterable\<close>
  | OutOfBounds int          \<comment> \<open>a write outside the vector, flagged by the model (see \<open>vecAdd\<close>)\<close>

subsection \<open>The local embedder\<close>

definition toInt32 :: "int \<Rightarrow> int" where
  \<comment> \<open>ToInt32 of the bit operators: the value modulo \<open>2^32\<close>, read as two's complement\<close>
  "toInt32 x = sint (word_of_int x :: 32 word)"

definition jsRem :: "int \<Rightarrow> int \<Rightarrow> int" where
  \<comment> \<open>the \<^verbatim>\<open>%\<close> of JavaScript on integral values: the sign follows the dividend\<close>
  "jsRem a b = sgn a * (\<bar>a\<bar> mod \<bar>b\<bar>)"

definition hashStep :: "int \<Rightarrow> 16 word \<Rightarrow> int" where
  \<comment> \<open>\<^verbatim>\<open>hash = ((hash << 5) - hash) + char; hash = hash & hash\<close>\<close>
  "hashStep hash char = toInt32 ((toInt32 (hash * 32) - hash) + uint char)"

definition hashLoop :: "jsstring \<Rightarrow> int" where
  "hashLoop str = foldl hashStep 0 str"

definition simpleHash :: "jsstring \<Rightarrow> int" where
  \<comment> \<open>\<^verbatim>\<open>Math.abs\<close> works on doubles: the absolute value of \<open>- 2^31\<close> is \<open>2^31\<close>\<close>
  "simpleHash str = \<bar>hashLoop str\<bar>"

definition vecAdd :: "real list \<Rightarrow> int \<Rightarrow> real \<Rightarrow> error + real list" where
  \<comment> \<open>\<^verbatim>\<open>vector[i] += x\<close>. Outside the vector JavaScript raises nothing (it would add a
     property holding NaN); the model flags that case as \<open>OutOfBounds\<close> so that the
     absence of such writes can be stated.\<close>
  "vecAdd vector i x =
     (if 0 \<le> i \<and> i < int (length vector)
      then Inr (vector[nat i := vector ! nat i + x])
      else Inl (OutOfBounds i))"

type_synonym tokenFreq = "(jsstring \<times> nat) list"

definition countToken :: "tokenFreq \<Rightarrow> jsstring \<Rightarrow> tokenFreq" where
  \<comment> \<open>\<^verbatim>\<open>tokenFreq[token] = (tokenFreq[token] || 0) + 1\<close>; a new key goes last\<close>
  "countToken tf token =
     (case map_of tf token of
        None \<Rightarrow> tf @ [(token, 1)]
      | Some n \<Rightarrow> AList.update token (n + 1) tf)"

definition arrayIndex :: "jsstring \<Rightarrow> nat option" where
  \<comment> \<open>the value of a key that is a canonical array index (digits, no leading zero,
     below \<open>2^32 - 1\<close>)\<close>
  "arrayIndex key =
     (if key \<noteq> [] \<and> list_all (\<lambda>c. 0x30 \<le> c \<and> c \<le> 0x39) key \<and> (key = [0x30] \<or> hd key \<noteq> 0x30)
      then (let n = foldl (\<lambda>n c. 10 * n + (unat c - 48)) 0 key
            in if n < 2 ^ 32 - 1 then Some n else None)
      else None)"

definition objectEntries :: "tokenFreq \<Rightarrow> tokenFreq" where
  \<comment> \<open>the order of \<^verbatim>\<open>Object.keys\<close>: array-index keys ascending, then the other keys
     in insertion order\<close>
  "objectEntries tf =
     sort_key (\<lambda>(key, n). the (arrayIndex key)) (filter (\<lambda>(key, n). arrayIndex key \<noteq> None) tf)
     @ filter (\<lambda>(key, n). arrayIndex key = None) tf"

definition isCJK :: "jsstring \<Rightarrow> bool" where
  "isCJK token = list_ex isCJKUnit token"

definition isChinese :: "jsstring \<Rightarrow> bool" where
  "isChinese token = list_ex isChineseUnit token"

definition latinSlot :: "jsstring \<Rightarrow> int" where
  "latinSlot token = jsRem (simpleHash token) 100"

definition cjkSlot :: "jsstring \<Rightarrow> int" where
  "cjkSlot token = 100 + jsRem (simpleHash token) 100"

definition commonConcepts :: "(jsstring \<times> jsstring list) list" where
  \<comment> \<open>the table of the source, its values as the code units the file holds\<close>
  "commonConcepts = [
    (js ''time'', [[0xCA, 0xF3, 0x2202, 0xC8, 0xF3, 0xA5],
       [0xCA, 0xF3, 0x2202],
       [0xCA, 0xF3, 0x2022, 0xCA, 0xFA, 0xFC]]),
    (js ''day'', [[0xC2, 0xA7, 0xA9],
       [0xCA, 0xF3, 0x2022],
       [0xCA, 0xF3, 0x2022, 0xC2, 0x2260, 0xEA]]),
    (js ''person'', [[0x2030, 0x222B, 0x222B],
       [0x2030, 0x222B, 0x222B, 0xC2, 0xEB, 0xF2],
       [0x2030, 0x220F, 0x2122, 0x2030, 0x222B, 0x222B]]),
    (js ''work'', [[0xC2, 0x2211, 0x2022, 0x2030, 0x3A9, 0xFA],
       [0xCB, 0xC5, 0xE5, 0x2030, 0x220F, 0xF6],
       [0x2030, 0xAA, 0xAA, 0xC2, 0xE4, 0xB0]]),
    (js ''book'', [[0x2030, 0x3C0, 0xB6],
       [0x2030, 0x3C0, 0xB6, 0xC1, 0xB1, 0xE7]]),
    (js ''food'', [[0xC8, 0xA3, 0xFC, 0xC1, 0xE2, 0xA9],
       [0xC8, 0xA3, 0xFC, 0xC2, 0xEC, 0xC5],
       [0xC8, 0xA7, 0xEA]]),
    (js ''water'', [[0xCA, 0x221E, 0xA5],
       [0xCA, 0x221E, 0xA5, 0xC2, 0xE0, 0xDC]]),
    (js ''house'', [[0xCA, 0xE0, 0xF8, 0xC2, 0x2260, 0xEA],
       [0xC2, 0xC6, 0x2202],
       [0x2030, 0x3A9, 0xE8, 0xC2, 0xC6, 0xD6]]),
    (js ''computer'', [[0xC1, 0xEE, 0xB5, 0xCB, 0xD1, 0xEB],
       [0xCB, 0xC6, 0xB0, 0xC1, 0xC6, 0xF3, 0xCA, 0xFA, 0x222B]]),
    (js ''friend'', [[0xCA, 0xFA, 0xE3, 0xC2, 0xE8, 0xE3],
       [0x2030, 0xBA, 0xF4, 0x2030, 0xBA, 0xA5]]),
    (js ''family'', [[0xC2, 0xC6, 0x2202, 0xC2, 0x222B, 0x2260],
       [0xC2, 0xC6, 0x2202, 0x2030, 0x222B, 0x222B]]),
    (js ''money'', [[0xC8, 0xED, 0xB1],
       [0xC8, 0xE1, 0xEB, 0xC8, 0xED, 0xB1],
       [0xCB, 0xB5, 0xD1, 0xC8, 0xE1, 0xEB]]),
    (js ''school'', [[0xC2, 0x2260, 0xB6, 0xCA, 0x2020, 0xB0],
       [0xCA, 0x2020, 0xB0, 0xC2, 0xF5, 0x2260]]),
    (js ''business'', [[0xC2, 0xEF, 0xDC, 0x2030, 0x220F, 0xF6],
       [0xC1, 0xEE, 0xFC, 0xCA, 0xD1, 0xE8],
       [0x2030, 0xBA, 0xC5, 0x2030, 0x220F, 0xF6]]),
    (js ''city'', [[0xC2, 0xFC, 0xE9, 0xC2, 0x220F, 0xC7],
       [0xC2, 0x220F, 0xC7]]),
    (js ''country'', [[0xC2, 0xF5, 0x3A9, 0xC2, 0xC6, 0x2202],
       [0xC2, 0xF5, 0x3A9]]),
    (js ''world'', [[0x2030, 0x220F, 0xF1, 0xC1, 0xEF, 0xE5],
       [0xC2, 0xD6, 0xAE, 0xC1, 0xEA, 0xC9]]),
    (js ''health'', [[0xC2, 0xC5, 0x2022, 0xC2, 0x222B, 0x2211],
       [0x2030, 0xF8, 0xF9, 0xC2, 0xC5, 0x2022]]),
    (js ''history'', [[0xC2, 0xE9, 0xDC, 0xC2, 0xE8, 0x2264],
       [0xC2, 0xE8, 0x2264]]),
    (js ''future'', [[0xCA, 0xFA, 0x2122, 0xCA, 0xF9, 0x2022],
       [0xC2, 0x221E, 0xDC, 0xCA, 0xF9, 0x2022]]),
    (js ''technology'', [[0xCA, 0xE4, 0xC4, 0xCA, 0xFA, 0xD8],
       [0xC1, 0xDF, 0xEB, 0xCA, 0xE4, 0xC4]]),
    (js ''science'', [[0xC1, 0xDF, 0xEB, 0xC2, 0x2260, 0xB6],
       [0xC2, 0x2260, 0xB6, 0xC1, 0xDF, 0xEB]]),
    (js ''art'', [[0xCB, 0xE2, 0x222B, 0xCA, 0xFA, 0xD8],
       [0xC1, 0xE6, 0xE9, 0xCA, 0xFA, 0xD8]]),
    (js ''music'', [[0xC8, 0xFC, 0x2265, 0x2030, 0x3C0, 0xEA],
       [0xCA, 0xF5, 0x2264]]),
    (js ''film'', [[0xC1, 0xEE, 0xB5, 0xC2, 0x3A9, 0xB1],
       [0xC2, 0x3A9, 0xB1, 0xC1, 0xE2, 0xE1]]),
    (js ''love'', [[0xC1, 0xE0, 0xB1],
       [0xC1, 0xE0, 0xB1, 0xCA, 0xC9, 0xD6]]),
    (js ''problem'', [[0xC8, 0xF3, 0xC6, 0xC8, 0xA2, 0xF2],
       [0xC8, 0xF6, 0xE6, 0xC8, 0xA2, 0xF2]]),
    (js ''solution'', [[0xCB, 0xDF, 0xA3, 0xC2, 0xDC, 0x2265, 0xCA, 0xF1, 0x3C0, 0xCA, 0xB0, 0xE0],
       [0xCB, 0xDF, 0xA3, 0xC2, 0xDC, 0x2265],
       [0xCA, 0xF1, 0x3C0, 0xCA, 0xB0, 0xE0]]),
    (js ''idea'', [[0xCA, 0xC9, 0x2265, 0xCA, 0x2265, 0xEF],
       [0x2030, 0x220F, 0xAA, 0xCA, 0xD1, 0xE8],
       [0xCA, 0xB6, 0xC7, 0xC2, 0xF8, 0xB5]]),
    (js ''information'', [[0x2030, 0xF8, 0xB0, 0xCA, 0xC5, 0xD8],
       [0xCB, 0xB5, 0xD1, 0xCB, 0xC6, 0xD8]])
   ]"

definition pushEquivalent :: "jsstring \<Rightarrow> (jsstring \<times> jsstring list) list \<Rightarrow> jsstring
    \<Rightarrow> (jsstring \<times> jsstring list) list" where
  \<comment> \<open>\<^verbatim>\<open>if (!chineseToEnglish[zh]) chineseToEnglish[zh] = []; chineseToEnglish[zh].push(eng)\<close>\<close>
  "pushEquivalent eng table zh =
     (case map_of table zh of
        None \<Rightarrow> table @ [(zh, [eng])]
      | Some engs \<Rightarrow> AList.update zh (engs @ [eng]) table)"

definition chineseToEnglish :: "(jsstring \<times> jsstring list) list" where
  "chineseToEnglish =
     foldl (\<lambda>table (eng, zhArr). foldl (pushEquivalent eng) table zhArr) [] commonConcepts"

fun addAtSlots :: "real list \<Rightarrow> int list \<Rightarrow> real \<Rightarrow> error + real list" where
  \<comment> \<open>the inner loops of \<^verbatim>\<open>addCrossLanguageFeatures\<close>: one write per equivalent\<close>
  "addAtSlots vector [] w = Inr vector"
| "addAtSlots vector (i # slots) w =
     (case vecAdd vector i w of
        Inl e \<Rightarrow> Inl e
      | Inr vector' \<Rightarrow> addAtSlots vector' slots w)"

fun addCrossLanguageFeatures :: "real list \<Rightarrow> tokenFreq \<Rightarrow> error + real list" where
  \<comment> \<open>The second argument is \<^verbatim>\<open>tokenFreq\<close> in the order of \<^verbatim>\<open>Object.keys\<close>. The lookup
     \<^verbatim>\<open>commonConcepts[token]\<close> also finds what the object inherits: for the token
     \<^verbatim>\<open>constructor\<close> (the only name of \<^verbatim>\<open>Object.prototype\<close> that \<^verbatim>\<open>[a-z0-9]+\<close> can
     produce) it is a function, truthy, and \<^verbatim>\<open>for ... of\<close> over it throws a TypeError.\<close>
  "addCrossLanguageFeatures vector [] = Inr vector"
| "addCrossLanguageFeatures vector ((token, n) # rest) =
     (if isChinese token \<and> map_of chineseToEnglish token \<noteq> None then
        (case addAtSlots vector (map latinSlot (the (map_of chineseToEnglish token))) (real n * 0.5) of
           Inl e \<Rightarrow> Inl e
         | Inr vector' \<Rightarrow> addCrossLanguageFeatures vector' rest)
      else if \<not> isChinese token \<and> map_of commonConcepts token \<noteq> None then
        (case addAtSlots vector (map cjkSlot (the (map_of commonConcepts token))) (real n * 0.5) of
           Inl e \<Rightarrow> Inl e
         | Inr vector' \<Rightarrow> addCrossLanguageFeatures vector' rest)
      else if \<not> isChinese token \<and> token = js ''constructor'' then Inl NotIterable
      else addCrossLanguageFeatures vector rest)"

fun fillVector :: "real list \<Rightarrow> tokenFreq \<Rightarrow> error + real list" where
  \<comment> \<open>\<^verbatim>\<open>for (const token of Object.keys(tokenFreq)) { ... vector[hash] += tokenFreq[token] }\<close>.
     For the token \<^verbatim>\<open>constructor\<close> the value added is a string in JavaScript, not the
     count; \<open>addCrossLanguageFeatures\<close> then throws, so that vector is never returned.\<close>
  "fillVector vector [] = Inr vector"
| "fillVector vector ((token, n) # rest) =
     (let hash = (if isCJK token then cjkSlot token else latinSlot token)
      in case vecAdd vector hash (real n) of
           Inl e \<Rightarrow> Inl e
         | Inr vector' \<Rightarrow> fillVector vector' rest)"

definition normalizeVector :: "real list \<Rightarrow> real list" where
  "normalizeVector vector =
     (let magnitude = sqrt (foldl (\<lambda>sum val. sum + val * val) 0 vector)
      in if magnitude > 0 then map (\<lambda>val. val / magnitude) vector else vector)"

definition getLocalEmbedding :: "jsstring \<Rightarrow> error + real list" where
  "getLocalEmbedding text =
     (let latinWords = matchAlnumRuns (toLowerCase text) [];
          cjkChars = matchCJKChars text;
          tokens = latinWords @ cjkChars;
          tokenFreq = objectEntries (foldl countToken [] tokens)
      in case fillVector (replicate 200 0) tokenFreq of
           Inl e \<Rightarrow> Inl e
         | Inr vector \<Rightarrow>
             (case addCrossLanguageFeatures vector tokenFreq of
                Inl e \<Rightarrow> Inl e
              | Inr vector' \<Rightarrow> Inr (normalizeVector vector')))"

subsection \<open>The similarity metric\<close>

definition cosineSimilarity :: "real list \<Rightarrow> real list \<Rightarrow> real" where
  "cosineSimilarity a b =
     (if length a \<noteq> length b then 0
      else
        (let (dotProduct, normA, normB) =
               foldl (\<lambda>(d, na, nb) (x, y). (d + x * y, na + x * x, nb + y * y)) (0, 0, 0) (zip a b)
         in if normA = 0 \<or> normB = 0 then 0
            else dotProduct / (sqrt normA * sqrt normB)))"

subsection \<open>Plugin state and host\<close>

record ThreadOfAriadneSettings =
  apiKey :: jsstring
  numSimilarNotes :: int
  minSimilarityScore :: real
  ignoreFolders :: "jsstring list"
  cacheExpiration :: int
  useGeminiEmbeddings :: bool

record EmbeddingCacheItem =
  embedding :: "real list"
  timestamp :: int

record TFile =
  path :: jsstring
  extension :: jsstring
  mtime :: int      \<comment> \<open>\<^verbatim>\<open>file.stat.mtime\<close>\<close>

record SimilarNoteResult =
  file' :: TFile   \<comment> \<open>the field \<^verbatim>\<open>file\<close> of the source\<close>
  score :: real

datatype event =
    VaultRead jsstring           \<comment> \<open>\<^verbatim>\<open>this.app.vault.read(file)\<close>, by path\<close>
  | EmbeddingComputed jsstring   \<comment> \<open>a call of \<^verbatim>\<open>getEmbedding\<close>, by text\<close>
  | Fetch jsstring               \<comment> \<open>a network request, by the text sent\<close>

record plugin =
  settings :: ThreadOfAriadneSettings
  embeddings :: "(jsstring \<times> EmbeddingCacheItem) list"
    \<comment> \<open>the \<^verbatim>\<open>Map\<close>, in insertion order; \<open>map_of\<close> is \<^verbatim>\<open>get\<close>, \<open>AList.update\<close> is \<^verbatim>\<open>set\<close>\<close>
  ticks :: nat          \<comment> \<open>how many times \<^verbatim>\<open>Date.now()\<close> was read\<close>
  trace :: "event list" \<comment> \<open>what was performed, oldest first\<close>

datatype response =
    Rejected               \<comment> \<open>the promise of \<^verbatim>\<open>fetch\<close> rejects\<close>
  | NotOk int              \<comment> \<open>\<^verbatim>\<open>!response.ok\<close>, with \<^verbatim>\<open>response.status\<close>\<close>
  | Malformed              \<comment> \<open>no JSON body, or none with an array \<^verbatim>\<open>embedding.values\<close>\<close>
  | Values "real list"     \<comment> \<open>\<^verbatim>\<open>data.embedding.values\<close>\<close>

record host =
  vaultRead :: "jsstring \<Rightarrow> jsstring option"   \<comment> \<open>content by path; \<open>None\<close> when the read rejects\<close>
  fetch :: "jsstring \<Rightarrow> jsstring \<Rightarrow> response" \<comment> \<open>by API key and text sent\<close>
  clock :: "nat \<Rightarrow> int"                       \<comment> \<open>the value of the n-th \<^verbatim>\<open>Date.now()\<close>\<close>
  markdownFiles :: "TFile list"                \<comment> \<open>\<^verbatim>\<open>vault.getMarkdownFiles()\<close>\<close>
  activeFile :: "TFile option"                 \<comment> \<open>the file of the active Markdown view\<close>

definition dateNow :: "host \<Rightarrow> plugin \<Rightarrow> int \<times> plugin" where
  "dateNow h s = (clock h (ticks s), s\<lparr>ticks := Suc (ticks s)\<rparr>)"

definition logEvent :: "event \<Rightarrow> plugin \<Rightarrow> plugin" where
  "logEvent ev s = s\<lparr>trace := trace s @ [ev]\<rparr>"

subsection \<open>The cache sweep\<close>

definition cleanEmbeddingCache :: "host \<Rightarrow> plugin \<Rightarrow> plugin" where
  \<comment> \<open>the loop visits every entry of the map once; deleting the entry being visited
     does not disturb the iteration\<close>
  "cleanEmbeddingCache h s =
     (let (now, s1) = dateNow h s;
          expiration = cacheExpiration (settings s1) * 24 * 60 * 60 * 1000
      in s1\<lparr>embeddings :=
              foldl (\<lambda>m (path, cacheItem).
                       if now - timestamp cacheItem > expiration then AList.delete path m else m)
                    (embeddings s1) (embeddings s1)\<rparr>)"

subsection \<open>The remote client and the choice of backend\<close>

fun cjkRun :: "jsstring \<Rightarrow> nat \<Rightarrow> bool" where
  \<comment> \<open>\<^verbatim>\<open>/[...]{5,}/.test(text)\<close>: five CJK code units in a row; the second argument
     is the length of the run being read\<close>
  "cjkRun [] k = (5 \<le> k)"
| "cjkRun (c # cs) k = (5 \<le> k \<or> (if isCJKUnit c then cjkRun cs (Suc k) else cjkRun cs 0))"

definition requestText :: "jsstring \<Rightarrow> jsstring" where
  "requestText text =
     (if cjkRun text 0 then js ''Content for multilingual semantic embedding: '' @ text
      else text)"

definition getGeminiEmbedding :: "host \<Rightarrow> jsstring \<Rightarrow> plugin \<Rightarrow> (error + real list) \<times> plugin" where
  "getGeminiEmbedding h text s =
     (if apiKey (settings s) = [] \<or> trim (apiKey (settings s)) = [] then (Inl MissingApiKey, s)
      else
        (let s1 = logEvent (Fetch (requestText text)) s
         in case fetch h (apiKey (settings s)) (requestText text) of
              Rejected \<Rightarrow> (Inl FetchRejected, s1)
            | NotOk status \<Rightarrow> (Inl (ApiError status), s1)
            | Malformed \<Rightarrow> (Inl InvalidResponseFormat, s1)
            | Values vs \<Rightarrow> (Inr vs, s1)))"

definition getEmbedding :: "host \<Rightarrow> jsstring \<Rightarrow> plugin \<Rightarrow> (error + real list) \<times> plugin" where
  "getEmbedding h text s =
     (let s0 = logEvent (EmbeddingComputed text) s
      in if useGeminiEmbeddings (settings s0) \<and> apiKey (settings s0) \<noteq> [] then
           (case getGeminiEmbedding h text s0 of
              (Inr vs, s1) \<Rightarrow> (Inr vs, s1)
            | (Inl e, s1) \<Rightarrow> (getLocalEmbedding text, s1))
         else (getLocalEmbedding text, s0))"

subsection \<open>Cache-or-compute\<close>

definition cachedVector :: "plugin \<Rightarrow> TFile \<Rightarrow> real list option" where
  \<comment> \<open>the test that opens \<^verbatim>\<open>getNoteEmbedding\<close>: the vector of an entry of the cache
     that is at least as new as the file\<close>
  "cachedVector s f =
     (case map_of (embeddings s) (path f) of
        Some cacheEntry \<Rightarrow> if mtime f \<le> timestamp cacheEntry then Some (embedding cacheEntry) else None
      | None \<Rightarrow> None)"

definition getNoteEmbedding :: "host \<Rightarrow> TFile \<Rightarrow> plugin \<Rightarrow> (error + real list) \<times> plugin" where
  "getNoteEmbedding h f s =
     (case cachedVector s f of
        Some cached \<Rightarrow> (Inr cached, s)
      | None \<Rightarrow>
          (let s1 = logEvent (VaultRead (path f)) s
           in case vaultRead h (path f) of
                None \<Rightarrow> (Inl ReadFailed, s1)
              | Some content \<Rightarrow>
                  (case getEmbedding h content s1 of
                     (Inl e, s2) \<Rightarrow> (Inl e, s2)
                   | (Inr vs, s2) \<Rightarrow>
                       (let (now, s3) = dateNow h s2
                        in (Inr vs,
                            s3\<lparr>embeddings :=
                                 AList.update (path f) \<lparr>embedding = vs, timestamp = now\<rparr> (embeddings s3)\<rparr>)))))"

subsection \<open>The orchestrator\<close>

definition shouldIgnoreFile :: "plugin \<Rightarrow> TFile \<Rightarrow> bool" where
  "shouldIgnoreFile s f =
     (extension f \<noteq> js ''md'' \<or> list_ex (\<lambda>folder. prefix folder (path f)) (ignoreFolders (settings s)))"

fun scoreLoop :: "host \<Rightarrow> TFile \<Rightarrow> real list \<Rightarrow> TFile list \<Rightarrow> SimilarNoteResult list \<Rightarrow> plugin
    \<Rightarrow> (error + SimilarNoteResult list) \<times> plugin" where
  \<comment> \<open>\<^verbatim>\<open>for (const file of files) { ... }\<close>; the fifth argument is \<^verbatim>\<open>similarityScores\<close>\<close>
  "scoreLoop h currentFile currentEmbedding [] similarityScores s = (Inr similarityScores, s)"
| "scoreLoop h currentFile currentEmbedding (f # files) similarityScores s =
     (if path f = path currentFile \<or> shouldIgnoreFile s f
      then scoreLoop h currentFile currentEmbedding files similarityScores s
      else
        (case getNoteEmbedding h f s of
           (Inl e, s1) \<Rightarrow> (Inl e, s1)
         | (Inr emb, s1) \<Rightarrow>
             (let similarity = cosineSimilarity currentEmbedding emb
              in scoreLoop h currentFile currentEmbedding files
                   (if similarity \<ge> minSimilarityScore (settings s1)
                    then similarityScores @ [\<lparr>file' = f, score = similarity\<rparr>]
                    else similarityScores) s1)))"

definition sortDescending :: "SimilarNoteResult list \<Rightarrow> SimilarNoteResult list" where
  \<comment> \<open>\<^verbatim>\<open>sort((a, b) => b.score - a.score)\<close>; the sort of JavaScript is stable\<close>
  "sortDescending rs = sort_key (\<lambda>r. - score r) rs"

definition sliceFromZero :: "'a list \<Rightarrow> int \<Rightarrow> 'a list" where
  \<comment> \<open>\<^verbatim>\<open>slice(0, n)\<close>: a negative \<open>n\<close> counts from the end\<close>
  "sliceFromZero xs n =
     take (nat (if n < 0 then max (int (length xs) + n) 0 else min n (int (length xs)))) xs"

datatype outcome =
    NoActiveNote                          \<comment> \<open>no active view or no file: a notice, nothing else\<close>
  | Results "SimilarNoteResult list"      \<comment> \<open>\<^verbatim>\<open>topResults\<close>, handed to the sidebar\<close>
  | Failed error                          \<comment> \<open>the \<^verbatim>\<open>catch\<close> branch: an error notice, no results\<close>

definition findSimilarNotes :: "host \<Rightarrow> plugin \<Rightarrow> outcome \<times> plugin" where
  "findSimilarNotes h s =
     (case activeFile h of
        None \<Rightarrow> (NoActiveNote, s)
      | Some currentFile \<Rightarrow>
          (case getNoteEmbedding h currentFile s of
             (Inl e, s1) \<Rightarrow> (Failed e, s1)
           | (Inr currentEmbedding, s1) \<Rightarrow>
               (case scoreLoop h currentFile currentEmbedding (markdownFiles h) [] s1 of
                  (Inl e, s2) \<Rightarrow> (Failed e, s2)
                | (Inr similarityScores, s2) \<Rightarrow>
                    (Results (sliceFromZero (sortDescending similarityScores)
                                (numSimilarNotes (settings s2))), s2))))"

subsection \<open>The ranking stage on its own\<close>

definition rank :: "real list \<Rightarrow> (TFile \<times> real list) list \<Rightarrow> real \<Rightarrow> int \<Rightarrow> SimilarNoteResult list" where
  \<comment> \<open>What \<^verbatim>\<open>findSimilarNotes\<close> does with the embeddings once they are resolved: score
     each candidate, keep the scores that reach the floor, sort, truncate. Lemma
     \<open>findSimilarNotes_rank\<close> below shows that the result of \<open>findSimilarNotes\<close> is this
     function of the resolved embeddings.\<close>
  "rank query candidates minScore cap =
     sliceFromZero
       (sortDescending
          (filter (\<lambda>r. score r \<ge> minScore)
             (map (\<lambda>(f, emb). \<lparr>file' = f, score = cosineSimilarity query emb\<rparr>) candidates)))
       cap"

definition isCandidate :: "plugin \<Rightarrow> TFile \<Rightarrow> TFile \<Rightarrow> bool" where
  \<comment> \<open>the files the loop of \<^verbatim>\<open>findSimilarNotes\<close> does not skip\<close>
  "isCandidate s currentFile f = (\<not> (path f = path currentFile \<or> shouldIgnoreFile s f))"

subsection \<open>Auxiliary notions of the statements\<close>

definition withLocalBackend :: "plugin \<Rightarrow> plugin" where
  \<comment> \<open>the plugin with the toggle "Use Gemini Embeddings" off\<close>
  "withLocalBackend s = s\<lparr>settings := (settings s)\<lparr>useGeminiEmbeddings := False\<rparr>\<rparr>"



subsection \<open>A small vault for concrete runs\<close>

definition DEFAULT_SETTINGS :: ThreadOfAriadneSettings where
  "DEFAULT_SETTINGS =
     \<lparr>apiKey = [], numSimilarNotes = 5, minSimilarityScore = 0.7, ignoreFolders = [],
      cacheExpiration = 7, useGeminiEmbeddings = False\<rparr>"

definition noteA :: TFile where
  "noteA = \<lparr>path = js ''a.md'', extension = js ''md'', mtime = 5\<rparr>"

definition noteB :: TFile where
  "noteB = \<lparr>path = js ''b.md'', extension = js ''md'', mtime = 5\<rparr>"

definition noteC :: TFile where
  "noteC = \<lparr>path = js ''c.md'', extension = js ''md'', mtime = 5\<rparr>"

definition exampleHost :: host where
  \<comment> \<open>three notes, of which \<^verbatim>\<open>b.md\<close> cannot be read; the remote service answers every
     request with a vector of three components\<close>
  "exampleHost =
     \<lparr>vaultRead = (\<lambda>p. if p = js ''a.md'' then Some (js ''a'')
                       else if p = js ''c.md'' then Some (js ''c'') else None),
      fetch = (\<lambda>key text. Values [0, 0, 1]),
      clock = (\<lambda>n. 1000 + int n),
      markdownFiles = [noteA, noteB, noteC],
      activeFile = Some noteA\<rparr>"

definition warmState :: plugin where
  \<comment> \<open>every note has an entry of the cache newer than the note\<close>
  "warmState =
     \<lparr>settings = DEFAULT_SETTINGS,
      embeddings = [(js ''a.md'', \<lparr>embedding = [3, 4], timestamp = 10\<rparr>),
                    (js ''b.md'', \<lparr>embedding = [4, 3], timestamp = 10\<rparr>),
                    (js ''c.md'', \<lparr>embedding = [0, 5], timestamp = 10\<rparr>)],
      ticks = 0, trace = []\<rparr>"



section \<open>Verification\<close>

subsection \<open>The local embedder stays inside its vector\<close>

lemma simpleHash_nonneg: "0 \<le> simpleHash str"
  by (simp add: simpleHash_def)

lemma jsRem_100: "0 \<le> a \<Longrightarrow> 0 \<le> jsRem a 100 \<and> jsRem a 100 < 100"
  by (cases "a = 0") (simp_all add: jsRem_def)

lemma latinSlot_range: "0 \<le> latinSlot token \<and> latinSlot token < 100"
  unfolding latinSlot_def using jsRem_100 [OF simpleHash_nonneg] by blast

lemma cjkSlot_range: "100 \<le> cjkSlot token \<and> cjkSlot token < 200"
  unfolding cjkSlot_def using jsRem_100 [OF simpleHash_nonneg, of token] by simp

lemma vecAdd_in_range:
  "0 \<le> i \<Longrightarrow> i < int (length vector) \<Longrightarrow>
     \<exists>vector'. vecAdd vector i x = Inr vector' \<and> length vector' = length vector"
  by (simp add: vecAdd_def)

lemma addAtSlots_in_range:
  "list_all (\<lambda>i. 0 \<le> i \<and> i < int (length vector)) slots \<Longrightarrow>
     \<exists>vector'. addAtSlots vector slots w = Inr vector' \<and> length vector' = length vector"
proof (induction slots arbitrary: vector)
  case Nil
  then show ?case by simp
next
  case (Cons i slots)
  then obtain v1 where v1: "vecAdd vector i w = Inr v1" "length v1 = length vector"
    using vecAdd_in_range [of i vector w] by auto
  with Cons.prems have "list_all (\<lambda>i. 0 \<le> i \<and> i < int (length v1)) slots" by simp
  from Cons.IH [OF this] v1 show ?case by auto
qed

lemma fillVector_in_range:
  "length vector = 200 \<Longrightarrow> \<exists>vector'. fillVector vector tf = Inr vector' \<and> length vector' = 200"
proof (induction tf arbitrary: vector)
  case Nil
  then show ?case by simp
next
  case (Cons p tf)
  obtain token n where p: "p = (token, n)" by (cases p)
  define hash where "hash = (if isCJK token then cjkSlot token else latinSlot token)"
  have "0 \<le> hash \<and> hash < int (length vector)"
    using latinSlot_range [of token] cjkSlot_range [of token] Cons.prems by (simp add: hash_def)
  then obtain v1 where v1: "vecAdd vector hash (real n) = Inr v1" "length v1 = length vector"
    using vecAdd_in_range [of hash vector "real n"] by auto
  from Cons.IH [of v1] v1 Cons.prems obtain v2 where "fillVector v1 tf = Inr v2" "length v2 = 200"
    by auto
  with v1 show ?case by (simp add: p hash_def Let_def)
qed

lemma addCrossLanguageFeatures_in_range:
  "length vector = 200 \<Longrightarrow>
     addCrossLanguageFeatures vector tf = Inl NotIterable \<or>
     (\<exists>vector'. addCrossLanguageFeatures vector tf = Inr vector' \<and> length vector' = 200)"
proof (induction tf arbitrary: vector)
  case Nil
  then show ?case by simp
next
  case (Cons p tf)
  obtain token n where p: "p = (token, n)" by (cases p)
  have l1: "0 \<le> latinSlot t \<and> latinSlot t < int (length vector)" for t
    using latinSlot_range [of t] Cons.prems by simp
  have c1: "0 \<le> cjkSlot t \<and> cjkSlot t < int (length vector)" for t
    using cjkSlot_range [of t] Cons.prems by simp
  have latin: "list_all (\<lambda>i. 0 \<le> i \<and> i < int (length vector)) (map latinSlot ts)" for ts
    using l1 by (simp add: list_all_iff)
  have cjk: "list_all (\<lambda>i. 0 \<le> i \<and> i < int (length vector)) (map cjkSlot ts)" for ts
    using c1 by (simp add: list_all_iff)
  show ?case
  proof (cases "isChinese token \<and> map_of chineseToEnglish token \<noteq> None")
    case True
    obtain v1 where v1: "addAtSlots vector (map latinSlot (the (map_of chineseToEnglish token))) (real n * 0.5) = Inr v1"
      "length v1 = length vector"
      using addAtSlots_in_range [OF latin] by blast
    with Cons.IH [of v1] Cons.prems True show ?thesis by (auto simp: p)
  next
    case notzh: False
    show ?thesis
    proof (cases "\<not> isChinese token \<and> map_of commonConcepts token \<noteq> None")
      case True
      obtain v1 where v1: "addAtSlots vector (map cjkSlot (the (map_of commonConcepts token))) (real n * 0.5) = Inr v1"
        "length v1 = length vector"
        using addAtSlots_in_range [OF cjk] by blast
      with Cons.IH [of v1] Cons.prems True notzh show ?thesis by (auto simp: p)
    next
      case False
      with Cons.IH [of vector] Cons.prems notzh show ?thesis by (auto simp: p)
    qed
  qed
qed

lemma getLocalEmbedding_cases:
  "getLocalEmbedding text = Inl NotIterable \<or>
   (\<exists>vector. getLocalEmbedding text = Inr vector \<and> length vector = 200)"
proof -
  define tf where "tf = objectEntries (foldl countToken [] (matchAlnumRuns (toLowerCase text) [] @ matchCJKChars text))"
  obtain v1 where v1: "fillVector (replicate 200 0) tf = Inr v1" "length v1 = 200"
    using fillVector_in_range [of "replicate 200 0" tf] by auto
  have n: "length (normalizeVector v) = length v" for v by (simp add: normalizeVector_def Let_def)
  from addCrossLanguageFeatures_in_range [OF v1(2), of tf] v1 n show ?thesis
    by (auto simp: getLocalEmbedding_def Let_def tf_def)
qed

lemma hashLoop_min_int: "hashLoop (js ''polygenelubricants'') = - 2147483648"
  by (simp add: hashLoop_def js_def hashStep_def toInt32_def)

text \<open>
  C10. \<open>simpleHash\<close> is never negative, also for a string whose 32-bit hash is the
  least signed integer (\<^verbatim>\<open>Math.abs\<close> of \<open>- 2^31\<close> is \<open>2^31\<close>, no wrap-around); hence
  the slot of a Latin-script token lies in \<open>[0, 100)\<close>, the slot of a CJK token or of a
  cross-language equivalent in \<open>[0, 200)\<close>, and neither \<open>getLocalEmbedding\<close> nor
  \<open>addCrossLanguageFeatures\<close> ever writes outside the 200-element vector: the
  embedder returns a vector of 200 components, or throws the TypeError of the token
  \<^verbatim>\<open>constructor\<close>.
\<close>

theorem local_embedding_writes_in_bounds:
  "0 \<le> simpleHash str
   \<and> hashLoop (js ''polygenelubricants'') = - (2 ^ 31)
   \<and> simpleHash (js ''polygenelubricants'') = 2 ^ 31
   \<and> 0 \<le> latinSlot token \<and> latinSlot token < 100
   \<and> 100 \<le> cjkSlot token \<and> cjkSlot token < 200
   \<and> (length vector = 200 \<longrightarrow> fillVector vector tf \<noteq> Inl (OutOfBounds i))
   \<and> (length vector = 200 \<longrightarrow> addCrossLanguageFeatures vector tf \<noteq> Inl (OutOfBounds i))
   \<and> getLocalEmbedding text \<noteq> Inl (OutOfBounds i)
   \<and> (getLocalEmbedding text = Inl NotIterable
        \<or> (\<exists>v. getLocalEmbedding text = Inr v \<and> length v = 200))"
proof -
  have a: "length vector = 200 \<longrightarrow> fillVector vector tf \<noteq> Inl (OutOfBounds i)"
    using fillVector_in_range [of vector tf] by auto
  have b: "length vector = 200 \<longrightarrow> addCrossLanguageFeatures vector tf \<noteq> Inl (OutOfBounds i)"
    using addCrossLanguageFeatures_in_range [of vector tf] by auto
  have c: "getLocalEmbedding text \<noteq> Inl (OutOfBounds i)"
    using getLocalEmbedding_cases [of "text"] by auto
  have d: "simpleHash (js ''polygenelubricants'') = 2 ^ 31"
    by (simp add: simpleHash_def hashLoop_min_int)
  show ?thesis
    using simpleHash_nonneg [of str] hashLoop_min_int latinSlot_range [of token]
      cjkSlot_range [of token] a b c d getLocalEmbedding_cases [of "text"]
    by simp
qed

theorem local_embedding_writes_in_bounds_witness:
  "length (replicate 200 (0::real)) = 200
   \<and> latinSlot (js ''time'') = 41
   \<and> 100 \<le> cjkSlot [0x65F6] \<and> cjkSlot [0x65F6] < 200
   \<and> fillVector (replicate 200 0) [(js ''time'', 2)] \<noteq> Inl (OutOfBounds 41)
   \<and> addCrossLanguageFeatures (replicate 200 0) [(js ''time'', 2)] \<noteq> Inl (OutOfBounds 41)
   \<and> getLocalEmbedding (js ''Time and time again'') \<noteq> Inl (OutOfBounds 41)"
proof -
  note t = local_embedding_writes_in_bounds
      [of "js ''time''" "[0x65F6]" "replicate 200 0" "[(js ''time'', 2)]" 41 "js ''Time and time again''"]
  have l: "length (replicate 200 (0::real)) = 200"
    by simp
  have s: "latinSlot (js ''time'') = 41"
    by (simp add: latinSlot_def simpleHash_def hashLoop_def js_def hashStep_def toInt32_def jsRem_def)
  from t l show ?thesis
    unfolding s by blast
qed

subsection \<open>Cosine similarity\<close>

lemma cosine_foldl:
  "foldl (\<lambda>(d, na, nb) (x, y). (d + x * y, na + x * x, nb + y * y)) (d0, na0, nb0) ps =
     (d0 + (\<Sum>(x, y)\<leftarrow>ps. x * y), na0 + (\<Sum>x\<leftarrow>map fst ps. x * x), nb0 + (\<Sum>y\<leftarrow>map snd ps. y * y))"
  for d0 na0 nb0 :: real
  by (induction ps arbitrary: d0 na0 nb0) (auto simp: algebra_simps)

lemma cosineSimilarity_eq:
  "length a = length b \<Longrightarrow>
     cosineSimilarity a b =
       (if (\<Sum>x\<leftarrow>a. x * x) = 0 \<or> (\<Sum>y\<leftarrow>b. y * y) = 0 then 0
        else (\<Sum>(x, y)\<leftarrow>zip a b. x * y) / (sqrt (\<Sum>x\<leftarrow>a. x * x) * sqrt (\<Sum>y\<leftarrow>b. y * y)))"
  by (simp add: cosineSimilarity_def cosine_foldl)

lemma sum_squares_zero_iff: "(\<Sum>x\<leftarrow>a. x * x) = 0 \<longleftrightarrow> (\<forall>x\<in>set a. x = 0)" for a :: "real list"
proof (induction a)
  case Nil
  then show ?case by simp
next
  case (Cons x a)
  have "0 \<le> (\<Sum>x\<leftarrow>a. x * x)" by (rule sum_list_nonneg) auto
  with Cons show ?case by (auto simp: add_nonneg_eq_0_iff)
qed

text \<open>
  C6. Cosine similarity is a total function into the numbers (nothing is raised), and
  it is 0 whenever the two vectors differ in length or one of them has Euclidean norm 0.
\<close>

theorem cosineSimilarity_zero:
  "length a \<noteq> length b \<or> sqrt (\<Sum>x\<leftarrow>a. x * x) = 0 \<or> sqrt (\<Sum>y\<leftarrow>b. y * y) = 0
     \<Longrightarrow> cosineSimilarity a b = 0"
proof (cases "length a = length b")
  case True
  assume "length a \<noteq> length b \<or> sqrt (\<Sum>x\<leftarrow>a. x * x) = 0 \<or> sqrt (\<Sum>y\<leftarrow>b. y * y) = 0"
  with True have "(\<Sum>x\<leftarrow>a. x * x) = 0 \<or> (\<Sum>y\<leftarrow>b. y * y) = 0" by simp
  with True show ?thesis by (simp add: cosineSimilarity_eq)
next
  case False
  then show ?thesis by (simp add: cosineSimilarity_def)
qed

theorem cosineSimilarity_zero_witness:
  "length [1, 2 :: real] \<noteq> length [1, 2, 3 :: real] \<and> cosineSimilarity [1, 2] [1, 2, 3] = 0
   \<and> sqrt (\<Sum>x\<leftarrow>[0, 0 :: real]. x * x) = 0 \<and> cosineSimilarity [0, 0] [3, 4] = 0
   \<and> cosineSimilarity [3, 4] [0, 0] = 0"
proof -
  have 1: "length [1, 2 :: real] \<noteq> length [1, 2, 3 :: real]" by simp
  have 2: "sqrt (\<Sum>x\<leftarrow>[0, 0 :: real]. x * x) = 0" by simp
  from 1 have a: "cosineSimilarity [1, 2] [1, 2, 3] = 0"
    using cosineSimilarity_zero [of "[1, 2]" "[1, 2, 3]"] by blast
  from 2 have b: "cosineSimilarity [0, 0] [3, 4] = 0"
    using cosineSimilarity_zero [of "[0, 0]" "[3, 4]"] by blast
  from 2 have c: "cosineSimilarity [3, 4] [0, 0] = 0"
    using cosineSimilarity_zero [of "[3, 4]" "[0, 0]"] by blast
  from 1 2 a b c show ?thesis by blast
qed

subsection \<open>The cache sweep\<close>

lemma sweep_map_of:
  "map_of (foldl (\<lambda>m (path, cacheItem). if P cacheItem then AList.delete path m else m) m es) p =
     (if \<exists>item. (p, item) \<in> set es \<and> P item then None else map_of m p)"
proof (induction es arbitrary: m)
  case Nil
  then show ?case by simp
next
  case (Cons e es)
  obtain k i where e: "e = (k, i)" by (cases e)
  show ?case
    unfolding e by (simp add: Cons.IH delete_conv') (auto simp: delete_conv')
qed

text \<open>
  C7. After the sweep run at time \<open>now\<close> (the value \<^verbatim>\<open>Date.now()\<close> returns to it) with
  the window \<open>w\<close> (\<open>cacheExpiration\<close> days in milliseconds), a path whose entry has
  \<open>now - timestamp > w\<close> has no entry, and every other path has the entry it had. The
  keys of the cache are distinct, as those of a \<^verbatim>\<open>Map\<close> are.
\<close>

theorem cleanEmbeddingCache_purges:
  assumes "distinct (map fst (embeddings s))"
  shows "map_of (embeddings (cleanEmbeddingCache h s)) p =
           (case map_of (embeddings s) p of
              None \<Rightarrow> None
            | Some item \<Rightarrow>
                if clock h (ticks s) - timestamp item > cacheExpiration (settings s) * 24 * 60 * 60 * 1000
                then None else Some item)"
proof -
  have "(\<exists>item. (p, item) \<in> set (embeddings s) \<and> P item) \<longleftrightarrow>
        (\<exists>item. map_of (embeddings s) p = Some item \<and> P item)" for P
    using assms by (auto dest: map_of_SomeD)
  then show ?thesis
    by (simp add: cleanEmbeddingCache_def dateNow_def Let_def sweep_map_of split: option.splits)
qed

subsection \<open>What the embedding functions leave alone\<close>

lemma getGeminiEmbedding_frame:
  "getGeminiEmbedding h text s = (r, s') \<Longrightarrow>
     settings s' = settings s \<and> embeddings s' = embeddings s \<and> ticks s' = ticks s"
  by (auto simp: getGeminiEmbedding_def logEvent_def Let_def split: if_splits response.splits)

lemma getEmbedding_frame:
  "getEmbedding h text s = (r, s') \<Longrightarrow>
     settings s' = settings s \<and> embeddings s' = embeddings s \<and> ticks s' = ticks s"
proof -
  assume a: "getEmbedding h text s = (r, s')"
  obtain r1 s1 where g: "getGeminiEmbedding h text (logEvent (EmbeddingComputed text) s) = (r1, s1)"
    by (cases "getGeminiEmbedding h text (logEvent (EmbeddingComputed text) s)")
  from getGeminiEmbedding_frame [OF g] a g show ?thesis
    by (auto simp: getEmbedding_def logEvent_def Let_def split: if_splits sum.splits)
qed

lemma getNoteEmbedding_hit:
  "cachedVector s f = Some v \<Longrightarrow> getNoteEmbedding h f s = (Inr v, s)"
  by (simp add: getNoteEmbedding_def)

lemma getNoteEmbedding_unreadable:
  "cachedVector s f = None \<Longrightarrow> vaultRead h (path f) = None \<Longrightarrow>
     getNoteEmbedding h f s = (Inl ReadFailed, logEvent (VaultRead (path f)) s)"
  by (simp add: getNoteEmbedding_def Let_def)

lemma getNoteEmbedding_miss:
  "cachedVector s f = None \<Longrightarrow> vaultRead h (path f) = Some content \<Longrightarrow>
     getEmbedding h content (logEvent (VaultRead (path f)) s) = (r, s2) \<Longrightarrow>
     getNoteEmbedding h f s =
       (case r of
          Inl e \<Rightarrow> (Inl e, s2)
        | Inr vs \<Rightarrow>
            (Inr vs, s2\<lparr>ticks := Suc (ticks s2),
                        embeddings := AList.update (path f)
                          \<lparr>embedding = vs, timestamp = clock h (ticks s2)\<rparr> (embeddings s2)\<rparr>))"
  by (simp add: getNoteEmbedding_def Let_def dateNow_def split: sum.splits)

lemma getNoteEmbedding_settings:
  "getNoteEmbedding h f s = (r, s') \<Longrightarrow> settings s' = settings s"
proof -
  assume a: "getNoteEmbedding h f s = (r, s')"
  show ?thesis
  proof (cases "cachedVector s f")
    case (Some v)
    with getNoteEmbedding_hit [OF Some, of h] a show ?thesis by simp
  next
    case None
    show ?thesis
    proof (cases "vaultRead h (path f)")
      case n: None
      from getNoteEmbedding_unreadable [OF None n] a show ?thesis by (auto simp: logEvent_def)
    next
      case (Some content)
      obtain r2 s2 where g: "getEmbedding h content (logEvent (VaultRead (path f)) s) = (r2, s2)"
        by (cases "getEmbedding h content (logEvent (VaultRead (path f)) s)")
      from getEmbedding_frame [OF g] have "settings s2 = settings s" by (simp add: logEvent_def)
      with getNoteEmbedding_miss [OF None Some g] a show ?thesis
        by (auto split: sum.splits)
    qed
  qed
qed

lemma isCandidate_settings:
  "settings s1 = settings s \<Longrightarrow> isCandidate s1 cur f = isCandidate s cur f"
  by (simp add: isCandidate_def shouldIgnoreFile_def)




subsection \<open>Ranking\<close>






theorem cleanEmbeddingCache_purges_witness:
  "distinct (map fst (embeddings (warmState\<lparr>embeddings :=
       [(js ''a.md'', \<lparr>embedding = [3, 4], timestamp = 10\<rparr>),
        (js ''b.md'', \<lparr>embedding = [4, 3], timestamp = 700000000\<rparr>)]\<rparr>)))
   \<and> map_of (embeddings (cleanEmbeddingCache (exampleHost\<lparr>clock := \<lambda>n. 800000000\<rparr>)
        (warmState\<lparr>embeddings :=
           [(js ''a.md'', \<lparr>embedding = [3, 4], timestamp = 10\<rparr>),
            (js ''b.md'', \<lparr>embedding = [4, 3], timestamp = 700000000\<rparr>)]\<rparr>))) (js ''a.md'') = None
   \<and> map_of (embeddings (cleanEmbeddingCache (exampleHost\<lparr>clock := \<lambda>n. 800000000\<rparr>)
        (warmState\<lparr>embeddings :=
           [(js ''a.md'', \<lparr>embedding = [3, 4], timestamp = 10\<rparr>),
            (js ''b.md'', \<lparr>embedding = [4, 3], timestamp = 700000000\<rparr>)]\<rparr>))) (js ''b.md'')
       = Some \<lparr>embedding = [4, 3], timestamp = 700000000\<rparr>"
proof -
  let ?s = "warmState\<lparr>embeddings :=
       [(js ''a.md'', \<lparr>embedding = [3, 4], timestamp = 10\<rparr>),
        (js ''b.md'', \<lparr>embedding = [4, 3], timestamp = 700000000\<rparr>)]\<rparr>"
  let ?h = "exampleHost\<lparr>clock := \<lambda>n. 800000000\<rparr>"
  have d: "distinct (map fst (embeddings ?s))"
    by (simp add: js_def)
  have a: "map_of (embeddings (cleanEmbeddingCache ?h ?s)) (js ''a.md'') = None"
    using cleanEmbeddingCache_purges [OF d, of ?h "js ''a.md''"]
    by (simp add: warmState_def DEFAULT_SETTINGS_def js_def)
  have b: "map_of (embeddings (cleanEmbeddingCache ?h ?s)) (js ''b.md'')
             = Some \<lparr>embedding = [4, 3], timestamp = 700000000\<rparr>"
    using cleanEmbeddingCache_purges [OF d, of ?h "js ''b.md''"]
    by (simp add: warmState_def DEFAULT_SETTINGS_def js_def)
  from d a b show ?thesis by blast
qed

lemma getGeminiEmbedding_trace:
  "\<exists>evs. trace (snd (getGeminiEmbedding h text s)) = trace s @ evs"
  by (auto simp: getGeminiEmbedding_def logEvent_def Let_def split: response.splits)

lemma getEmbedding_trace:
  "\<exists>evs. trace (snd (getEmbedding h text s)) = trace s @ EmbeddingComputed text # evs"
proof -
  obtain r1 s1 where g: "getGeminiEmbedding h text (logEvent (EmbeddingComputed text) s) = (r1, s1)"
    by (cases "getGeminiEmbedding h text (logEvent (EmbeddingComputed text) s)")
  from getGeminiEmbedding_trace [of h "text" "logEvent (EmbeddingComputed text) s"] g
  obtain evs where "trace s1 = trace s @ EmbeddingComputed text # evs"
    by (auto simp: logEvent_def)
  with g show ?thesis
    by (auto simp: getEmbedding_def logEvent_def Let_def split: sum.splits)
qed

lemma getNoteEmbedding_miss_trace:
  assumes "cachedVector s f = None"
  shows "\<exists>evs. trace (snd (getNoteEmbedding h f s)) = trace s @ VaultRead (path f) # evs"
proof (cases "vaultRead h (path f)")
  case None
  from getNoteEmbedding_unreadable [OF assms None] show ?thesis by (simp add: logEvent_def)
next
  case (Some content)
  obtain r2 s2 where g: "getEmbedding h content (logEvent (VaultRead (path f)) s) = (r2, s2)"
    by (cases "getEmbedding h content (logEvent (VaultRead (path f)) s)")
  from getEmbedding_trace [of h content "logEvent (VaultRead (path f)) s"] g
  obtain evs where "trace s2 = trace s @ VaultRead (path f) # EmbeddingComputed content # evs"
    by (auto simp: logEvent_def)
  with getNoteEmbedding_miss [OF assms Some g] show ?thesis
    by (auto split: sum.splits)
qed

lemma cachedVector_Some_iff:
  "cachedVector s f \<noteq> None \<longleftrightarrow>
     (\<exists>e. map_of (embeddings s) (path f) = Some e \<and> mtime f \<le> timestamp e)"
  by (auto simp: cachedVector_def split: option.splits)

lemma getLocalEmbedding_a:
  "getLocalEmbedding (js ''a'') = Inr (normalizeVector ((replicate 200 0)[97 := 1]))"
proof -
  have "map_of commonConcepts (js ''a'') = None"
    by (simp add: commonConcepts_def js_def)
  then show ?thesis
    by (simp add: getLocalEmbedding_def js_def toLowerCase_def lowerUnit_def isAlnum_def
        matchCJKChars_def isCJKUnit_def countToken_def objectEntries_def arrayIndex_def isCJK_def
        latinSlot_def simpleHash_def hashLoop_def hashStep_def toInt32_def jsRem_def vecAdd_def
        isChinese_def isChineseUnit_def)
qed

subsection \<open>The cache and the backend toggle\<close>

text \<open>
  C4 fails on the code. On a cold cache with the local backend, \<^verbatim>\<open>a.md\<close> is embedded
  locally (200 components) and cached. The toggle is then switched to Gemini, with a
  key: the next resolution of \<^verbatim>\<open>a.md\<close> returns the cached local vector and changes
  nothing, although the remote backend would now give a vector of three components.
\<close>

theorem stale_backend_vector_reused:
  "getNoteEmbedding exampleHost noteA
     ((snd (getNoteEmbedding exampleHost noteA (warmState\<lparr>embeddings := []\<rparr>)))
        \<lparr>settings := DEFAULT_SETTINGS\<lparr>apiKey := js ''key'', useGeminiEmbeddings := True\<rparr>\<rparr>)
   = (Inr (normalizeVector ((replicate 200 0)[97 := 1])),
      (snd (getNoteEmbedding exampleHost noteA (warmState\<lparr>embeddings := []\<rparr>)))
        \<lparr>settings := DEFAULT_SETTINGS\<lparr>apiKey := js ''key'', useGeminiEmbeddings := True\<rparr>\<rparr>)
   \<and> fst (getNoteEmbedding exampleHost noteA (warmState\<lparr>embeddings := []\<rparr>))
       = getLocalEmbedding (js ''a'')
   \<and> fst (getEmbedding exampleHost (js ''a'')
        ((snd (getNoteEmbedding exampleHost noteA (warmState\<lparr>embeddings := []\<rparr>)))
           \<lparr>settings := DEFAULT_SETTINGS\<lparr>apiKey := js ''key'', useGeminiEmbeddings := True\<rparr>\<rparr>))
       = Inr [0, 0, 1]"
proof -
  let ?vs = "normalizeVector ((replicate 200 0)[97 := 1])"
  let ?cold = "warmState\<lparr>embeddings := []\<rparr>"
  have c: "cachedVector ?cold noteA = None"
    by (simp add: cachedVector_def)
  have r: "vaultRead exampleHost (path noteA) = Some (js ''a'')"
    by (simp add: exampleHost_def noteA_def)
  have g: "getEmbedding exampleHost (js ''a'') (logEvent (VaultRead (path noteA)) ?cold)
        = (Inr ?vs, logEvent (EmbeddingComputed (js ''a'')) (logEvent (VaultRead (path noteA)) ?cold))"
    by (simp add: getEmbedding_def getLocalEmbedding_a logEvent_def warmState_def DEFAULT_SETTINGS_def Let_def)
  let ?s1 = "(logEvent (EmbeddingComputed (js ''a'')) (logEvent (VaultRead (path noteA)) ?cold))
        \<lparr>ticks := 1, embeddings := [(path noteA, \<lparr>embedding = ?vs, timestamp = 1000\<rparr>)]\<rparr>"
  have first: "getNoteEmbedding exampleHost noteA ?cold = (Inr ?vs, ?s1)"
    using getNoteEmbedding_miss [OF c r g]
    by (simp add: logEvent_def warmState_def exampleHost_def)
  have k: "trim (js ''key'') \<noteq> []"
    by (simp add: trim_def js_def isWhiteSpace_def)
  have k0: "js ''key'' \<noteq> []" by (simp add: js_def)
  have 1: "fst (getNoteEmbedding exampleHost noteA ?cold) = getLocalEmbedding (js ''a'')"
    by (simp add: first getLocalEmbedding_a)
  have 2: "cachedVector ((snd (getNoteEmbedding exampleHost noteA ?cold))
        \<lparr>settings := DEFAULT_SETTINGS\<lparr>apiKey := js ''key'', useGeminiEmbeddings := True\<rparr>\<rparr>) noteA
      = Some ?vs"
    unfolding first by (simp add: cachedVector_def logEvent_def noteA_def)
  have 3: "fst (getEmbedding exampleHost (js ''a'')
        ((snd (getNoteEmbedding exampleHost noteA ?cold))
           \<lparr>settings := DEFAULT_SETTINGS\<lparr>apiKey := js ''key'', useGeminiEmbeddings := True\<rparr>\<rparr>))
       = Inr [0, 0, 1]"
    unfolding first using k k0
    by (simp add: getEmbedding_def getGeminiEmbedding_def logEvent_def exampleHost_def
        DEFAULT_SETTINGS_def Let_def)
  from getNoteEmbedding_hit [OF 2, of exampleHost] 1 3 show ?thesis by blast
qed

lemma cachedVector_settings [simp]: "cachedVector (s\<lparr>settings := st\<rparr>) f = cachedVector s f"
  by (simp add: cachedVector_def)

text \<open>
  C4, as the code has it. The cache does not record which backend produced an entry,
  and the test for reuse reads nothing but the entry's time stamp and the document's
  modification time: whatever the settings are changed to, an entry at least as new as
  the document is reused, and nothing is recomputed.
\<close>

theorem getNoteEmbedding_ignores_backend:
  assumes "map_of (embeddings s) (path f) = Some e" and "mtime f \<le> timestamp e"
  shows "cachedVector (s\<lparr>settings := st\<rparr>) f = Some (embedding e)
     \<and> getNoteEmbedding h f (s\<lparr>settings := st\<rparr>) = (Inr (embedding e), s\<lparr>settings := st\<rparr>)"
proof -
  from assms have "cachedVector (s\<lparr>settings := st\<rparr>) f = Some (embedding e)"
    by (simp add: cachedVector_def)
  with getNoteEmbedding_hit [OF this, of h] show ?thesis by simp
qed

theorem getNoteEmbedding_ignores_backend_witness:
  "map_of (embeddings warmState) (path noteA) = Some \<lparr>embedding = [3, 4], timestamp = 10\<rparr>
   \<and> mtime noteA \<le> timestamp \<lparr>embedding = [3, 4], timestamp = 10\<rparr>
   \<and> getNoteEmbedding exampleHost noteA
        (warmState\<lparr>settings := DEFAULT_SETTINGS\<lparr>apiKey := js ''key'', useGeminiEmbeddings := True\<rparr>\<rparr>)
       = (Inr [3, 4],
          warmState\<lparr>settings := DEFAULT_SETTINGS\<lparr>apiKey := js ''key'', useGeminiEmbeddings := True\<rparr>\<rparr>)"
proof -
  have m: "map_of (embeddings warmState) (path noteA) = Some \<lparr>embedding = [3, 4], timestamp = 10\<rparr>"
    by (simp add: warmState_def noteA_def js_def)
  have fr: "mtime noteA \<le> timestamp \<lparr>embedding = [3, 4], timestamp = 10\<rparr>"
    by (simp add: noteA_def)
  from getNoteEmbedding_ignores_backend [OF m fr, of "DEFAULT_SETTINGS\<lparr>apiKey := js ''key'', useGeminiEmbeddings := True\<rparr>" exampleHost]
  have "getNoteEmbedding exampleHost noteA
        (warmState\<lparr>settings := DEFAULT_SETTINGS\<lparr>apiKey := js ''key'', useGeminiEmbeddings := True\<rparr>\<rparr>)
       = (Inr [3, 4],
          warmState\<lparr>settings := DEFAULT_SETTINGS\<lparr>apiKey := js ''key'', useGeminiEmbeddings := True\<rparr>\<rparr>)"
    by simp
  with m fr show ?thesis by blast
qed

subsection \<open>A warm cache\<close>

lemma scoreLoop_warm:
  "\<forall>f\<in>set files. isCandidate s cur f \<longrightarrow> cachedVector s f \<noteq> None \<Longrightarrow>
     \<exists>scores. scoreLoop h cur ce files acc s = (Inr scores, s)"
proof (induction files arbitrary: acc)
  case Nil
  then show ?case by simp
next
  case (Cons f files)
  then have rest: "\<forall>f\<in>set files. isCandidate s cur f \<longrightarrow> cachedVector s f \<noteq> None" by simp
  show ?case
  proof (cases "isCandidate s cur f")
    case False
    with Cons.IH [OF rest, of acc] show ?thesis by (simp add: isCandidate_def)
  next
    case True
    with Cons.prems obtain v where v: "cachedVector s f = Some v" by auto
    define acc' where "acc' = (if cosineSimilarity ce v \<ge> minSimilarityScore (settings s)
          then acc @ [\<lparr>file' = f, score = cosineSimilarity ce v\<rparr>] else acc)"
    from Cons.IH [OF rest, of acc'] obtain scores where "scoreLoop h cur ce files acc' s = (Inr scores, s)"
      by blast
    with True getNoteEmbedding_hit [OF v, of h] show ?thesis
      by (simp add: isCandidate_def acc'_def Let_def)
  qed
qed

text \<open>
  C8. With a warm cache (the active note and every candidate have an entry at least as
  new as the file) \<open>findSimilarNotes\<close> delivers a result list and leaves the plugin as
  it was: no read, no embedding computation and no request is added to the trace, the
  cache and the clock are untouched. A second call, on the state the first one left,
  therefore delivers the same list in the same order, again without any computation.
\<close>

theorem findSimilarNotes_warm_idempotent:
  assumes "activeFile h = Some cur"
    and "\<forall>f\<in>set (cur # filter (isCandidate s cur) (markdownFiles h)).
           \<exists>e. map_of (embeddings s) (path f) = Some e \<and> mtime f \<le> timestamp e"
  shows "\<exists>rs. findSimilarNotes h s = (Results rs, s)
            \<and> findSimilarNotes h (snd (findSimilarNotes h s)) = (Results rs, s)"
proof -
  from assms(2) have all: "\<forall>f\<in>set (cur # filter (isCandidate s cur) (markdownFiles h)). cachedVector s f \<noteq> None"
    using cachedVector_Some_iff by blast
  then obtain q where q: "cachedVector s cur = Some q" by auto
  from all have "\<forall>f\<in>set (markdownFiles h). isCandidate s cur f \<longrightarrow> cachedVector s f \<noteq> None"
    by simp
  from scoreLoop_warm [OF this, of h q "[]"] obtain scores where
    l: "scoreLoop h cur q (markdownFiles h) [] s = (Inr scores, s)" by blast
  have "findSimilarNotes h s
      = (Results (sliceFromZero (sortDescending scores) (numSimilarNotes (settings s))), s)"
    using assms(1) getNoteEmbedding_hit [OF q, of h] l by (simp add: findSimilarNotes_def)
  then show ?thesis by simp
qed

theorem findSimilarNotes_warm_idempotent_witness:
  "activeFile exampleHost = Some noteA
   \<and> findSimilarNotes exampleHost warmState
       = (Results [\<lparr>file' = noteB, score = 24 / 25\<rparr>, \<lparr>file' = noteC, score = 4 / 5\<rparr>], warmState)
   \<and> findSimilarNotes exampleHost (snd (findSimilarNotes exampleHost warmState))
       = (Results [\<lparr>file' = noteB, score = 24 / 25\<rparr>, \<lparr>file' = noteC, score = 4 / 5\<rparr>], warmState)"
proof -
  have a: "activeFile exampleHost = Some noteA" by (simp add: exampleHost_def)
  have c: "filter (isCandidate warmState noteA) (markdownFiles exampleHost) = [noteB, noteC]"
    by (simp add: isCandidate_def shouldIgnoreFile_def exampleHost_def warmState_def
        DEFAULT_SETTINGS_def noteA_def noteB_def noteC_def js_def)
  have w: "\<forall>f\<in>set (noteA # filter (isCandidate warmState noteA) (markdownFiles exampleHost)).
           \<exists>e. map_of (embeddings warmState) (path f) = Some e \<and> mtime f \<le> timestamp e"
    unfolding c by (simp add: warmState_def noteA_def noteB_def noteC_def js_def)
  from findSimilarNotes_warm_idempotent [OF a w] obtain rs where
    rs: "findSimilarNotes exampleHost warmState = (Results rs, warmState)"
        "findSimilarNotes exampleHost (snd (findSimilarNotes exampleHost warmState)) = (Results rs, warmState)"
    by blast
  have cv: "cachedVector warmState noteA = Some [3, 4]" "cachedVector warmState noteB = Some [4, 3]"
    "cachedVector warmState noteC = Some [0, 5]"
    by (simp_all add: cachedVector_def warmState_def noteA_def noteB_def noteC_def js_def)
  have c1: "cosineSimilarity [3, 4] [4, 3] = 24 / 25" by (simp add: cosineSimilarity_def)
  have c2: "cosineSimilarity [3, 4] [0, 5] = 4 / 5" by (simp add: cosineSimilarity_def)
  have ig: "\<not> shouldIgnoreFile warmState noteB" "\<not> shouldIgnoreFile warmState noteC"
    by (simp_all add: shouldIgnoreFile_def warmState_def DEFAULT_SETTINGS_def noteB_def noteC_def)
  have p: "path noteA = path noteA" "path noteB \<noteq> path noteA" "path noteC \<noteq> path noteA"
    by (simp_all add: noteA_def noteB_def noteC_def js_def)
  have ms: "minSimilarityScore (settings warmState) = 7 / 10" "numSimilarNotes (settings warmState) = 5"
    by (simp_all add: warmState_def DEFAULT_SETTINGS_def)
  have e: "findSimilarNotes exampleHost warmState
       = (Results [\<lparr>file' = noteB, score = 24 / 25\<rparr>, \<lparr>file' = noteC, score = 4 / 5\<rparr>], warmState)"
    using a getNoteEmbedding_hit [OF cv(1), of exampleHost] getNoteEmbedding_hit [OF cv(2), of exampleHost]
      getNoteEmbedding_hit [OF cv(3), of exampleHost] ig p
    by (simp add: findSimilarNotes_def exampleHost_def c1 c2 ms sortDescending_def sliceFromZero_def)
  from rs(1) e have "rs = [\<lparr>file' = noteB, score = 24 / 25\<rparr>, \<lparr>file' = noteC, score = 4 / 5\<rparr>]"
    by simp
  with rs(2) have second: "findSimilarNotes exampleHost (snd (findSimilarNotes exampleHost warmState))
       = (Results [\<lparr>file' = noteB, score = 24 / 25\<rparr>, \<lparr>file' = noteC, score = 4 / 5\<rparr>], warmState)"
    by simp
  from a e second show ?thesis by blast
qed

subsection \<open>A candidate that cannot be read\<close>

text \<open>
  C1 fails on the code. In the example vault \<^verbatim>\<open>a.md\<close> is active and cached, \<^verbatim>\<open>b.md\<close>
  has no entry and cannot be read, \<^verbatim>\<open>c.md\<close> is cached with similarity \<open>4/5\<close>. The
  claim promises the ranking of the readable rest, \<^verbatim>\<open>c.md\<close>; the code fails.
\<close>

theorem unreadable_candidate_aborts:
  "findSimilarNotes exampleHost
      (warmState\<lparr>embeddings := AList.delete (js ''b.md'') (embeddings warmState)\<rparr>)
     = (Failed ReadFailed,
        logEvent (VaultRead (js ''b.md''))
          (warmState\<lparr>embeddings := AList.delete (js ''b.md'') (embeddings warmState)\<rparr>))
   \<and> rank [3, 4] [(noteC, [0, 5])] (7 / 10) 5 = [\<lparr>file' = noteC, score = 4 / 5\<rparr>]"
proof -
  let ?s = "warmState\<lparr>embeddings := AList.delete (js ''b.md'') (embeddings warmState)\<rparr>"
  have a: "activeFile exampleHost = Some noteA" by (simp add: exampleHost_def)
  have cv: "cachedVector ?s noteA = Some [3, 4]" "cachedVector ?s noteB = None"
    by (simp_all add: cachedVector_def warmState_def noteA_def noteB_def js_def)
  have rd: "vaultRead exampleHost (path noteB) = None"
    by (simp add: exampleHost_def noteB_def js_def)
  have ig: "\<not> shouldIgnoreFile ?s noteB"
    by (simp add: shouldIgnoreFile_def warmState_def DEFAULT_SETTINGS_def noteB_def)
  have p: "path noteB \<noteq> path noteA" "path noteB = js ''b.md''"
    by (simp_all add: noteA_def noteB_def js_def)
  have c2: "cosineSimilarity [3, 4] [0, 5] = 4 / 5" by (simp add: cosineSimilarity_def)
  have 1: "findSimilarNotes exampleHost ?s = (Failed ReadFailed, logEvent (VaultRead (js ''b.md'')) ?s)"
    using a getNoteEmbedding_hit [OF cv(1), of exampleHost]
      getNoteEmbedding_unreadable [OF cv(2) rd] ig p
    by (simp add: findSimilarNotes_def exampleHost_def)
  have 2: "rank [3, 4] [(noteC, [0, 5])] (7 / 10) 5 = [\<lparr>file' = noteC, score = 4 / 5\<rparr>]"
    by (simp add: rank_def c2 sortDescending_def sliceFromZero_def)
  from 1 2 show ?thesis by blast
qed

lemma getNoteEmbedding_keeps_unreadable:
  assumes "getNoteEmbedding h g s = (Inr v, s1)" and "vaultRead h (path f) = None"
  shows "cachedVector s1 f = cachedVector s f"
proof (cases "cachedVector s g")
  case (Some w)
  with getNoteEmbedding_hit [OF Some, of h] assms show ?thesis by simp
next
  case None
  show ?thesis
  proof (cases "vaultRead h (path g)")
    case n: None
    from getNoteEmbedding_unreadable [OF None n] assms show ?thesis by simp
  next
    case (Some content)
    with assms(2) have ne: "path g \<noteq> path f" by auto
    obtain r2 s2 where g: "getEmbedding h content (logEvent (VaultRead (path g)) s) = (r2, s2)"
      by (cases "getEmbedding h content (logEvent (VaultRead (path g)) s)")
    from getEmbedding_frame [OF g] have "embeddings s2 = embeddings s" by (simp add: logEvent_def)
    with getNoteEmbedding_miss [OF None Some g] assms(1) ne show ?thesis
      by (auto simp: cachedVector_def update_conv' split: sum.splits)
  qed
qed

lemma scoreLoop_unreadable:
  assumes "vaultRead h (path f) = None"
  shows "f \<in> set files \<Longrightarrow> isCandidate s cur f \<Longrightarrow> cachedVector s f = None \<Longrightarrow>
     \<exists>e s'. scoreLoop h cur ce files acc s = (Inl e, s')"
proof (induction files arbitrary: acc s)
  case Nil
  then show ?case by simp
next
  case (Cons g files)
  show ?case
  proof (cases "isCandidate s cur g")
    case False
    with Cons.prems have "f \<in> set files" by auto
    from Cons.IH [OF this Cons.prems(2,3), of acc] False show ?thesis
      by (simp add: isCandidate_def)
  next
    case True
    obtain r1 s1 where g: "getNoteEmbedding h g s = (r1, s1)"
      by (cases "getNoteEmbedding h g s")
    show ?thesis
    proof (cases r1)
      case (Inl e)
      with True g show ?thesis by (simp add: isCandidate_def)
    next
      case (Inr v)
      have "g \<noteq> f"
      proof
        assume "g = f"
        with getNoteEmbedding_unreadable [OF Cons.prems(3) assms] g Inr show False by simp
      qed
      with Cons.prems have m: "f \<in> set files" by auto
      from isCandidate_settings [OF getNoteEmbedding_settings [OF g], of cur f] Cons.prems(2)
      have c: "isCandidate s1 cur f" by simp
      from getNoteEmbedding_keeps_unreadable [OF g [unfolded Inr] assms] Cons.prems(3)
      have n: "cachedVector s1 f = None" by simp
      define acc' where "acc' = (if cosineSimilarity ce v \<ge> minSimilarityScore (settings s1)
          then acc @ [\<lparr>file' = g, score = cosineSimilarity ce v\<rparr>] else acc)"
      from Cons.IH [OF m c n, of acc'] True g Inr show ?thesis
        by (simp add: isCandidate_def acc'_def Let_def)
    qed
  qed
qed

text \<open>
  C1, as the code has it. The loop over the candidates has no handler of its own: a
  candidate that has no reusable entry in the cache and cannot be read makes
  \<open>findSimilarNotes\<close> take its \<^verbatim>\<open>catch\<close> branch. The operation ends with an error
  notice and delivers no result list, whatever the other documents are.
\<close>

theorem candidate_failure_aborts:
  assumes "activeFile h = Some cur"
    and "f \<in> set (markdownFiles h)"
    and "isCandidate s cur f"
    and "cachedVector s f = None"
    and "vaultRead h (path f) = None"
  shows "\<exists>e. fst (findSimilarNotes h s) = Failed e"
proof -
  obtain r1 s1 where g: "getNoteEmbedding h cur s = (r1, s1)"
    by (cases "getNoteEmbedding h cur s")
  show ?thesis
  proof (cases r1)
    case (Inl e)
    with assms(1) g show ?thesis by (simp add: findSimilarNotes_def)
  next
    case (Inr q)
    from isCandidate_settings [OF getNoteEmbedding_settings [OF g], of cur f] assms(3)
    have c: "isCandidate s1 cur f" by simp
    from getNoteEmbedding_keeps_unreadable [OF g [unfolded Inr] assms(5)] assms(4)
    have n: "cachedVector s1 f = None" by simp
    from scoreLoop_unreadable [OF assms(5) assms(2) c n, of q "[]"] obtain e s' where
      "scoreLoop h cur q (markdownFiles h) [] s1 = (Inl e, s')" by blast
    with assms(1) g Inr show ?thesis by (simp add: findSimilarNotes_def)
  qed
qed

theorem candidate_failure_aborts_witness:
  "activeFile exampleHost = Some noteA
   \<and> noteB \<in> set (markdownFiles exampleHost)
   \<and> isCandidate (warmState\<lparr>embeddings := []\<rparr>) noteA noteB
   \<and> cachedVector (warmState\<lparr>embeddings := []\<rparr>) noteB = None
   \<and> vaultRead exampleHost (path noteB) = None
   \<and> (\<exists>e. fst (findSimilarNotes exampleHost (warmState\<lparr>embeddings := []\<rparr>)) = Failed e)"
proof -
  have a: "activeFile exampleHost = Some noteA" by (simp add: exampleHost_def)
  have m: "noteB \<in> set (markdownFiles exampleHost)" by (simp add: exampleHost_def)
  have c: "isCandidate (warmState\<lparr>embeddings := []\<rparr>) noteA noteB"
    by (simp add: isCandidate_def shouldIgnoreFile_def warmState_def DEFAULT_SETTINGS_def
        noteA_def noteB_def js_def)
  have n: "cachedVector (warmState\<lparr>embeddings := []\<rparr>) noteB = None"
    by (simp add: cachedVector_def)
  have r: "vaultRead exampleHost (path noteB) = None"
    by (simp add: exampleHost_def noteB_def js_def)
  from a m c n r candidate_failure_aborts [OF a m c n r] show ?thesis by blast
qed

subsection \<open>The backend choice\<close>

lemma getGeminiEmbedding_blank:
  "trim (apiKey (settings s)) = [] \<Longrightarrow> getGeminiEmbedding h text s = (Inl MissingApiKey, s)"
  by (simp add: getGeminiEmbedding_def)

lemma getEmbedding_local:
  assumes "\<not> useGeminiEmbeddings (settings s) \<or> trim (apiKey (settings s)) = []"
  shows "getEmbedding h text s = (getLocalEmbedding text, logEvent (EmbeddingComputed text) s)"
proof (cases "useGeminiEmbeddings (settings s) \<and> apiKey (settings s) \<noteq> []")
  case False
  then show ?thesis by (auto simp: getEmbedding_def logEvent_def Let_def)
next
  case True
  with assms have "trim (apiKey (settings (logEvent (EmbeddingComputed text) s))) = []"
    by (simp add: logEvent_def)
  from getGeminiEmbedding_blank [OF this, of h "text"] True show ?thesis
    by (simp add: getEmbedding_def Let_def)
qed







text \<open>
  C9. The local embedder is a function of the text alone. Run through \<open>getEmbedding\<close>
  with the local backend selected, in any two hosts (vault, network, clock) and any two
  plugin states (settings, cache, clock reads, history), it yields the same result, the
  one of \<open>getLocalEmbedding\<close>, and it touches neither the cache nor the clock.
\<close>

theorem getLocalEmbedding_deterministic:
  "fst (getEmbedding h1 text (withLocalBackend s1)) = fst (getEmbedding h2 text (withLocalBackend s2))
   \<and> fst (getEmbedding h1 text (withLocalBackend s1)) = getLocalEmbedding text
   \<and> embeddings (snd (getEmbedding h1 text (withLocalBackend s1))) = embeddings s1
   \<and> ticks (snd (getEmbedding h1 text (withLocalBackend s1))) = ticks s1"
proof -
  have "\<not> useGeminiEmbeddings (settings (withLocalBackend s)) \<or> trim (apiKey (settings (withLocalBackend s))) = []" for s
    by (simp add: withLocalBackend_def)
  from getEmbedding_local [OF this] show ?thesis
    by (simp add: logEvent_def withLocalBackend_def)
qed

theorem getLocalEmbedding_deterministic_witness:
  "fst (getEmbedding exampleHost (js ''a'') (withLocalBackend warmState))
     = fst (getEmbedding (exampleHost\<lparr>clock := \<lambda>n. 7, fetch := \<lambda>key text. Rejected\<rparr>) (js ''a'')
          (withLocalBackend (warmState\<lparr>embeddings := [], ticks := 3\<rparr>)))
   \<and> fst (getEmbedding exampleHost (js ''a'') (withLocalBackend warmState))
     = Inr (normalizeVector ((replicate 200 0)[97 := 1]))"
proof -
  note t = getLocalEmbedding_deterministic [of exampleHost "js ''a''" warmState
      "exampleHost\<lparr>clock := \<lambda>n. 7, fetch := \<lambda>key text. Rejected\<rparr>" "warmState\<lparr>embeddings := [], ticks := 3\<rparr>"]
  from t have 1: "fst (getEmbedding exampleHost (js ''a'') (withLocalBackend warmState))
     = fst (getEmbedding (exampleHost\<lparr>clock := \<lambda>n. 7, fetch := \<lambda>key text. Rejected\<rparr>) (js ''a'')
          (withLocalBackend (warmState\<lparr>embeddings := [], ticks := 3\<rparr>)))" by blast
  from t have "fst (getEmbedding exampleHost (js ''a'') (withLocalBackend warmState)) = getLocalEmbedding (js ''a'')"
    by blast
  then have 2: "fst (getEmbedding exampleHost (js ''a'') (withLocalBackend warmState))
     = Inr (normalizeVector ((replicate 200 0)[97 := 1]))"
    by (simp add: getLocalEmbedding_a)
  from 1 2 show ?thesis by blast
qed

subsection \<open>Runs on local embeddings\<close>





lemma getLocalEmbedding_constructor:
  "getLocalEmbedding (js ''A Constructor'') = Inl NotIterable"
proof -
  have 1: "map_of commonConcepts (js ''a'') = None"
    by (simp add: commonConcepts_def js_def)
  have 2: "map_of commonConcepts (js ''constructor'') = None"
    by (simp add: commonConcepts_def js_def)
  from 1 2 show ?thesis
    by (simp add: getLocalEmbedding_def js_def toLowerCase_def lowerUnit_def isAlnum_def
        matchCJKChars_def isCJKUnit_def countToken_def objectEntries_def arrayIndex_def isCJK_def
        latinSlot_def simpleHash_def hashLoop_def hashStep_def toInt32_def jsRem_def vecAdd_def
        isChinese_def isChineseUnit_def)
qed






subsection \<open>Cache-or-compute, in full\<close>

text \<open>
  C3. Cache-or-compute reuses the cached vector (it returns it and performs nothing: no
  read, no embedding, no write) exactly when the cache has an entry for the document
  whose time stamp is at least the document's modification time. In every other case,
  a stale entry or none, it reads the document: a failed read or a failed embedding is
  the result and nothing is stored; otherwise the result is the fresh vector, and the
  entry is overwritten with that vector and the current time. In particular this is so
  for an entry stamped \<open>T\<close> and a document modified at \<open>T + 1\<close>.
\<close>

theorem getNoteEmbedding_reuse_iff:
  "(trace (snd (getNoteEmbedding h f s)) = trace s \<longleftrightarrow>
      (\<exists>e. map_of (embeddings s) (path f) = Some e \<and> mtime f \<le> timestamp e))
   \<and> (\<forall>e. map_of (embeddings s) (path f) = Some e \<and> mtime f \<le> timestamp e
          \<longrightarrow> getNoteEmbedding h f s = (Inr (embedding e), s))
   \<and> (\<not> (\<exists>e. map_of (embeddings s) (path f) = Some e \<and> mtime f \<le> timestamp e) \<longrightarrow>
        (vaultRead h (path f) = None
           \<longrightarrow> getNoteEmbedding h f s = (Inl ReadFailed, logEvent (VaultRead (path f)) s))
      \<and> (\<forall>content err s2.
            vaultRead h (path f) = Some content
            \<and> getEmbedding h content (logEvent (VaultRead (path f)) s) = (Inl err, s2)
            \<longrightarrow> getNoteEmbedding h f s = (Inl err, s2))
      \<and> (\<forall>content vs s2.
            vaultRead h (path f) = Some content
            \<and> getEmbedding h content (logEvent (VaultRead (path f)) s) = (Inr vs, s2)
            \<longrightarrow> getNoteEmbedding h f s =
                  (Inr vs, s2\<lparr>ticks := Suc (ticks s2),
                              embeddings := AList.update (path f)
                                \<lparr>embedding = vs, timestamp = clock h (ticks s2)\<rparr> (embeddings s2)\<rparr>)
                \<and> map_of (embeddings (snd (getNoteEmbedding h f s))) (path f)
                    = Some \<lparr>embedding = vs, timestamp = clock h (ticks s)\<rparr>))
   \<and> (\<forall>e content vs s2.
          map_of (embeddings s) (path f) = Some e \<and> mtime f = timestamp e + 1
          \<and> vaultRead h (path f) = Some content
          \<and> getEmbedding h content (logEvent (VaultRead (path f)) s) = (Inr vs, s2)
          \<longrightarrow> fst (getNoteEmbedding h f s) = Inr vs
              \<and> map_of (embeddings (snd (getNoteEmbedding h f s))) (path f)
                  = Some \<lparr>embedding = vs, timestamp = clock h (ticks s)\<rparr>)"
proof -
  let ?fresh = "\<exists>e. map_of (embeddings s) (path f) = Some e \<and> mtime f \<le> timestamp e"
  have hit: "getNoteEmbedding h f s = (Inr (embedding e), s)"
    if "map_of (embeddings s) (path f) = Some e \<and> mtime f \<le> timestamp e" for e
    using that by (intro getNoteEmbedding_hit) (simp add: cachedVector_def)
  have 1: "trace (snd (getNoteEmbedding h f s)) = trace s \<longleftrightarrow> ?fresh"
  proof (cases "cachedVector s f")
    case None
    from getNoteEmbedding_miss_trace [OF None, of h] have "trace (snd (getNoteEmbedding h f s)) \<noteq> trace s"
      by auto
    with None cachedVector_Some_iff [of s f] show ?thesis by simp
  next
    case (Some v)
    with getNoteEmbedding_hit [OF Some, of h] cachedVector_Some_iff [of s f] show ?thesis by simp
  qed
  have stored: "getNoteEmbedding h f s =
                  (Inr vs, s2\<lparr>ticks := Suc (ticks s2),
                              embeddings := AList.update (path f)
                                \<lparr>embedding = vs, timestamp = clock h (ticks s2)\<rparr> (embeddings s2)\<rparr>)
                \<and> map_of (embeddings (snd (getNoteEmbedding h f s))) (path f)
                    = Some \<lparr>embedding = vs, timestamp = clock h (ticks s)\<rparr>"
    if n: "cachedVector s f = None" and r: "vaultRead h (path f) = Some content"
      and g: "getEmbedding h content (logEvent (VaultRead (path f)) s) = (Inr vs, s2)"
    for content vs s2
  proof -
    from getEmbedding_frame [OF g] have "ticks s2 = ticks s" by (simp add: logEvent_def)
    with getNoteEmbedding_miss [OF n r g] show ?thesis by (simp add: update_conv')
  qed
  have 3: "(vaultRead h (path f) = None
           \<longrightarrow> getNoteEmbedding h f s = (Inl ReadFailed, logEvent (VaultRead (path f)) s))
      \<and> (\<forall>content err s2.
            vaultRead h (path f) = Some content
            \<and> getEmbedding h content (logEvent (VaultRead (path f)) s) = (Inl err, s2)
            \<longrightarrow> getNoteEmbedding h f s = (Inl err, s2))
      \<and> (\<forall>content vs s2.
            vaultRead h (path f) = Some content
            \<and> getEmbedding h content (logEvent (VaultRead (path f)) s) = (Inr vs, s2)
            \<longrightarrow> getNoteEmbedding h f s =
                  (Inr vs, s2\<lparr>ticks := Suc (ticks s2),
                              embeddings := AList.update (path f)
                                \<lparr>embedding = vs, timestamp = clock h (ticks s2)\<rparr> (embeddings s2)\<rparr>)
                \<and> map_of (embeddings (snd (getNoteEmbedding h f s))) (path f)
                    = Some \<lparr>embedding = vs, timestamp = clock h (ticks s)\<rparr>)"
    if "\<not> ?fresh"
  proof -
    from that cachedVector_Some_iff [of s f] have n: "cachedVector s f = None" by blast
    have a: "vaultRead h (path f) = None
           \<longrightarrow> getNoteEmbedding h f s = (Inl ReadFailed, logEvent (VaultRead (path f)) s)"
      using getNoteEmbedding_unreadable [OF n] by blast
    have b: "getNoteEmbedding h f s = (Inl err, s2)"
      if "vaultRead h (path f) = Some content
            \<and> getEmbedding h content (logEvent (VaultRead (path f)) s) = (Inl err, s2)"
      for content err s2
      using that getNoteEmbedding_miss [OF n, of h content "Inl err" s2] by simp
    from a b stored [OF n] show ?thesis by blast
  qed
  have 4: "fst (getNoteEmbedding h f s) = Inr vs
            \<and> map_of (embeddings (snd (getNoteEmbedding h f s))) (path f)
                = Some \<lparr>embedding = vs, timestamp = clock h (ticks s)\<rparr>"
    if a: "map_of (embeddings s) (path f) = Some e \<and> mtime f = timestamp e + 1
          \<and> vaultRead h (path f) = Some content
          \<and> getEmbedding h content (logEvent (VaultRead (path f)) s) = (Inr vs, s2)"
    for e content vs s2
  proof -
    from a have n: "cachedVector s f = None" by (simp add: cachedVector_def)
    from a have r: "vaultRead h (path f) = Some content"
      and g: "getEmbedding h content (logEvent (VaultRead (path f)) s) = (Inr vs, s2)" by simp_all
    note st = stored [OF n r g]
    from st [THEN conjunct1] have "fst (getNoteEmbedding h f s) = Inr vs" by simp
    with st [THEN conjunct2] show ?thesis by blast
  qed
  from 1 hit 3 4 show ?thesis by blast
qed

theorem getNoteEmbedding_reuse_iff_witness:
  "map_of (embeddings warmState) (path (noteA\<lparr>mtime := 11\<rparr>)) = Some \<lparr>embedding = [3, 4], timestamp = 10\<rparr>
   \<and> mtime (noteA\<lparr>mtime := 11\<rparr>) = timestamp \<lparr>embedding = [3, 4], timestamp = 10\<rparr> + 1
   \<and> trace (snd (getNoteEmbedding exampleHost (noteA\<lparr>mtime := 11\<rparr>) warmState)) \<noteq> trace warmState
   \<and> map_of (embeddings (snd (getNoteEmbedding exampleHost (noteA\<lparr>mtime := 11\<rparr>) warmState))) (js ''a.md'')
       = Some \<lparr>embedding = normalizeVector ((replicate 200 0)[97 := 1]), timestamp = 1000\<rparr>
   \<and> mtime noteA \<le> timestamp \<lparr>embedding = [3, 4], timestamp = 10\<rparr>
   \<and> getNoteEmbedding exampleHost noteA warmState = (Inr [3, 4], warmState)"
proof -
  let ?f = "noteA\<lparr>mtime := 11\<rparr>"
  let ?e = "\<lparr>embedding = [3, 4], timestamp = 10\<rparr>"
  let ?vs = "normalizeVector ((replicate 200 0)[97 := 1])"
  let ?s2 = "logEvent (EmbeddingComputed (js ''a'')) (logEvent (VaultRead (path ?f)) warmState)"
  note t = getNoteEmbedding_reuse_iff [of exampleHost ?f warmState]
  note u = getNoteEmbedding_reuse_iff [of exampleHost noteA warmState]
  have m: "map_of (embeddings warmState) (path ?f) = Some ?e"
    by (simp add: warmState_def noteA_def js_def)
  have m': "map_of (embeddings warmState) (path noteA) = Some ?e"
    by (simp add: warmState_def noteA_def js_def)
  have st: "mtime ?f = timestamp ?e + 1" by simp
  have fr: "mtime noteA \<le> timestamp ?e" by (simp add: noteA_def)
  have rd: "vaultRead exampleHost (path ?f) = Some (js ''a'')"
    by (simp add: exampleHost_def noteA_def)
  have la: "getLocalEmbedding (js ''a'') = Inr ?vs"
  proof -
    have "map_of commonConcepts (js ''a'') = None"
      by (simp add: commonConcepts_def js_def)
    then show ?thesis
      by (simp add: getLocalEmbedding_def js_def toLowerCase_def lowerUnit_def isAlnum_def
          matchCJKChars_def isCJKUnit_def countToken_def objectEntries_def arrayIndex_def isCJK_def
          latinSlot_def simpleHash_def hashLoop_def hashStep_def toInt32_def jsRem_def vecAdd_def
          isChinese_def isChineseUnit_def)
  qed
  have ge: "getEmbedding exampleHost (js ''a'') (logEvent (VaultRead (path ?f)) warmState) = (Inr ?vs, ?s2)"
    by (simp add: getEmbedding_def la logEvent_def warmState_def DEFAULT_SETTINGS_def Let_def)
  have stale: "\<not> (\<exists>e. map_of (embeddings warmState) (path ?f) = Some e \<and> mtime ?f \<le> timestamp e)"
    using m by simp
  from t stale have 1: "trace (snd (getNoteEmbedding exampleHost ?f warmState)) \<noteq> trace warmState"
    by blast
  from t m st rd ge have 2: "map_of (embeddings (snd (getNoteEmbedding exampleHost ?f warmState))) (path ?f)
       = Some \<lparr>embedding = ?vs, timestamp = clock exampleHost (ticks warmState)\<rparr>"
    by blast
  have w2: "map_of (embeddings (snd (getNoteEmbedding exampleHost ?f warmState))) (js ''a.md'')
       = Some \<lparr>embedding = ?vs, timestamp = 1000\<rparr>"
    using 2 by (simp add: noteA_def exampleHost_def warmState_def)
  from u m' fr have 3: "getNoteEmbedding exampleHost noteA warmState = (Inr (embedding ?e), warmState)"
    by blast
  then have w3: "getNoteEmbedding exampleHost noteA warmState = (Inr [3, 4], warmState)" by simp
  from m st 1 w2 fr w3 show ?thesis by blast
qed

subsection \<open>The results of \<open>findSimilarNotes\<close>\<close>




subsection \<open>A blank API key\<close>




subsection \<open>A text on which the local embedder throws\<close>

text \<open>
  The word \<^verbatim>\<open>constructor\<close> is a token like any other, but as a key of the object
  literal \<^verbatim>\<open>commonConcepts\<close> it finds the function that every object inherits, and
  the loop over its "equivalents" throws: \<open>getLocalEmbedding\<close> returns no vector for a
  text that contains the word, in any capitalisation.
\<close>

theorem constructor_token_throws:
  "getLocalEmbedding (js ''A Constructor'') = Inl NotIterable"
  by (rule getLocalEmbedding_constructor)

end
